theory Spec2Isabelle
  imports Main "HOL-Library.Sublist"
begin

section \<open>The options page of Immobile: rule validation (code/js/options.js)\<close>

text \<open>
  A JavaScript string is modelled as a \<open>string\<close>: one \<open>char\<close> per UTF-16 code unit, for
  the code units below 256. \<open>length\<close> is \<open>.length\<close>. A length or a counter is a
  \<open>nat\<close>; the Number that \<open>parseInt\<close> returns is modelled with its rounding to a double.
\<close>

subsection \<open>Character classes of the regular expressions\<close>

text \<open>\<open>\s\<close> and \<open>String.prototype.trim\<close>: tab, line feed, vertical tab, form feed,
  carriage return, space, no-break space.\<close>

definition isWhiteSpace :: "char \<Rightarrow> bool" where
  "isWhiteSpace c = (c = CHR 0x09 \<or> c = CHR 0x0A \<or> c = CHR 0x0B \<or> c = CHR 0x0C
                     \<or> c = CHR 0x0D \<or> c = CHR 0x20 \<or> c = CHR 0xA0)"

text \<open>The characters that \<open>.\<close> does not match: line feed and carriage return.\<close>

definition isLineTerminator :: "char \<Rightarrow> bool" where
  "isLineTerminator c = (c = CHR 0x0A \<or> c = CHR 0x0D)"

text \<open>\<open>[0-9]\<close>.\<close>

definition isDigit :: "char \<Rightarrow> bool" where
  "isDigit c = (48 \<le> (of_char c :: nat) \<and> (of_char c :: nat) \<le> 57)"

definition digitValue :: "char \<Rightarrow> nat" where
  "digitValue c = of_char c - 48"

subsection \<open>Rules\<close>

text \<open>
  A rule is the object \<open>{src: ..., dest: ..., regex: ...}\<close>: a map from property names
  to values. A property that the object does not own is \<open>None\<close>.
\<close>

datatype jsval = Str string | Bool bool

type_synonym rule = "string \<rightharpoonup> jsval"

text \<open>\<open>hasValue(obj, key, value)\<close>: \<open>obj.hasOwnProperty(key) && obj[key] === value\<close>.\<close>

definition hasValue :: "rule \<Rightarrow> string \<Rightarrow> jsval \<Rightarrow> bool" where
  "hasValue obj key v = (key \<in> dom obj \<and> obj key = Some v)"

text \<open>\<open>hasChars(string)\<close>: \<open>/\S/.test(string)\<close>.\<close>

definition hasChars :: "string \<Rightarrow> bool" where
  "hasChars string = list_ex (\<lambda>c. \<not> isWhiteSpace c) string"

subsection \<open>getButtonIndex\<close>

text \<open>
  \<open>buttonId.match(/([0-9])+/)\<close>: the leftmost position where a digit stands, and from
  there the longest run of digits (\<open>+\<close> is greedy). \<open>None\<close> is \<open>null\<close>; \<open>Some m\<close> is the
  match array, of which the code reads element \<open>0\<close>, the matched text \<open>m\<close>.
\<close>

fun match_digits :: "string \<Rightarrow> string option" where
  "match_digits [] = None"
| "match_digits (c # cs) =
     (if isDigit c then Some (takeWhile isDigit (c # cs)) else match_digits cs)"

text \<open>
  A Number: a finite integer value, \<open>NaN\<close>, or an infinity. (No other value of a double
  arises here: \<open>parseInt\<close> yields integers.)
\<close>

datatype number = Num int | NaN | PosInfinity | NegInfinity

fun negate :: "number \<Rightarrow> number" where
  "negate (Num n) = Num (- n)"
| "negate NaN = NaN"
| "negate PosInfinity = NegInfinity"
| "negate NegInfinity = PosInfinity"

text \<open>The number of binary digits of \<open>n\<close>.\<close>

fun bitlen :: "nat \<Rightarrow> nat" where
  "bitlen n = (if n = 0 then 0 else Suc (bitlen (n div 2)))"

declare bitlen.simps [simp del]

text \<open>
  The Number for a non-negative integer \<open>v\<close>: the nearest double, ties to the even
  significand. Below \<open>2 ^ 53\<close> every integer is a double. From \<open>2 ^ 1024 - 2 ^ 970\<close> on
  (half way between the largest double and \<open>2 ^ 1024\<close>) the result is \<open>Infinity\<close>.
  In between, \<open>v\<close> is \<open>q * 2 ^ e + r\<close> with a significand \<open>q\<close> of 53 binary digits, which
  is rounded up when the rest \<open>r\<close> is more than half of \<open>2 ^ e\<close>, or is half and \<open>q\<close> is odd.
\<close>

definition toDouble :: "nat \<Rightarrow> number" where
  "toDouble v =
     (if v < 2 ^ 53 then Num (int v)
      else if 2 ^ 1024 - 2 ^ 970 \<le> v then PosInfinity
      else (let e = bitlen v - 53;
                q = v div 2 ^ e;
                r = v mod 2 ^ e;
                half = 2 ^ (e - 1);
                m = (if half < r \<or> (r = half \<and> odd q) then q + 1 else q)
            in Num (int (m * 2 ^ e))))"

text \<open>
  \<open>parseInt(s, 10)\<close>: leading white space is skipped, then an optional sign, then the
  longest run of decimal digits is read; no digit gives \<open>NaN\<close>. The integer that the
  digits denote is turned into a Number. (For more than 20 significant digits an
  implementation may read the digits after the 20th as zeros; the model reads them all.)
\<close>

definition parseInt :: "string \<Rightarrow> number" where
  "parseInt s =
     (let t = dropWhile isWhiteSpace s;
          negative = (case t of [] \<Rightarrow> False | c # _ \<Rightarrow> c = CHR ''-'');
          u = (case t of [] \<Rightarrow> [] | c # r \<Rightarrow> if c = CHR ''-'' \<or> c = CHR ''+'' then r else t);
          ds = takeWhile isDigit u
      in if ds = [] then NaN
         else (let d = toDouble (foldl (\<lambda>n c. 10 * n + digitValue c) 0 ds)
               in if negative then negate d else d))"

datatype error = TypeError | OtherError

text \<open>The body of the \<open>try\<close>: indexing \<open>null\<close> raises a \<open>TypeError\<close>.\<close>

definition getButtonIndex_try :: "string \<Rightarrow> error + number" where
  "getButtonIndex_try buttonId =
     (case match_digits buttonId of
        None \<Rightarrow> Inl TypeError
      | Some m \<Rightarrow> Inr (parseInt m))"

text \<open>
  The value a call returns: a Number, \<open>null\<close>, or \<open>undefined\<close> (the \<open>catch\<close> swallows an
  error that is not a \<open>TypeError\<close> and falls through to \<open>return index\<close> with \<open>index\<close>
  never assigned).
\<close>

datatype returned = Number number | Null | Undefined

definition getButtonIndex :: "string \<Rightarrow> returned" where
  "getButtonIndex buttonId =
     (case getButtonIndex_try buttonId of
        Inl e \<Rightarrow> (if e = TypeError then Null else Undefined)
      | Inr index \<Rightarrow> Number index)"

subsection \<open>getDomain\<close>

text \<open>
  \<open>/\/\/(.+)/i.exec(url)\<close>: the leftmost position where two slashes are followed by a
  character that \<open>.\<close> matches; group 1 runs from that character up to the next line
  terminator or the end (\<open>.+\<close> is greedy). \<open>None\<close> is \<open>null\<close>, \<open>Some g\<close> is group 1.
\<close>

fun exec_protocol :: "string \<Rightarrow> string option" where
  "exec_protocol (a # b # c # rest) =
     (if a = CHR ''/'' \<and> b = CHR ''/'' \<and> \<not> isLineTerminator c
      then Some (takeWhile (\<lambda>x. \<not> isLineTerminator x) (c # rest))
      else exec_protocol (b # c # rest))"
| "exec_protocol _ = None"

text \<open>
  \<open>/(.+?)\//i\<close> tried at one start position: \<open>.+?\<close> takes one character that \<open>.\<close>
  matches and then as few more as needed for a slash to follow.
\<close>

fun match_path_at :: "string \<Rightarrow> string option" where
  "match_path_at (c # d # rest) =
     (if isLineTerminator c then None
      else if d = CHR ''/'' then Some [c]
      else map_option ((#) c) (match_path_at (d # rest)))"
| "match_path_at _ = None"

text \<open>\<open>/(.+?)\//i.exec(s)\<close>: the leftmost start position that matches; group 1.\<close>

fun exec_path :: "string \<Rightarrow> string option" where
  "exec_path [] = None"
| "exec_path (c # cs) =
     (case match_path_at (c # cs) of Some g \<Rightarrow> Some g | None \<Rightarrow> exec_path cs)"

text \<open>
  Both steps fall back to \<open>url\<close> when their regular expression finds nothing: the
  first with \<open>noProtocol = url\<close>, the second with \<open>noPath = url\<close>.
\<close>

definition getDomain :: "string \<Rightarrow> string" where
  "getDomain url =
     (let noProtocol = (case exec_protocol url of Some g \<Rightarrow> g | None \<Rightarrow> url);
          noPath = (case exec_path noProtocol of Some g \<Rightarrow> g | None \<Rightarrow> url)
      in noPath)"

subsection \<open>getSubdomainDifference\<close>

text \<open>\<open>s.replace(pat, '')\<close> with a string pattern: the first occurrence of \<open>pat\<close> in
  \<open>s\<close> is cut out; without an occurrence \<open>s\<close> is returned.\<close>

fun replace_first :: "string \<Rightarrow> string \<Rightarrow> string" where
  "replace_first [] pat = []"
| "replace_first (c # cs) pat =
     (if prefix pat (c # cs) then drop (length pat) (c # cs)
      else c # replace_first cs pat)"

text \<open>The \<open>for\<close> loop over \<open>postReplace\<close>, with its counter \<open>i\<close> and \<open>periodCounter\<close>.\<close>

function count_periods :: "string \<Rightarrow> nat \<Rightarrow> nat \<Rightarrow> nat" where
  "count_periods postReplace i periodCounter =
     (if i < length postReplace
      then count_periods postReplace (i + 1)
             (if postReplace ! i = CHR ''.'' then periodCounter + 1 else periodCounter)
      else periodCounter)"
  by pat_completeness auto
termination
  by (relation "measure (\<lambda>(postReplace, i, periodCounter). length postReplace - i)") auto

declare count_periods.simps [simp del]

definition getSubdomainDifference :: "string \<Rightarrow> string \<Rightarrow> nat" where
  "getSubdomainDifference source destination =
     (let src = getDomain source;
          dst = getDomain destination;
          longer = (if length dst \<ge> length src then dst else src);
          shorter = (if length dst \<ge> length src then src else dst);
          postReplace = replace_first longer shorter
      in if length postReplace = length longer then 0
         else count_periods postReplace 0 0)"

subsection \<open>isValidInput\<close>

text \<open>
  A call shows at most one notification and returns a boolean. The two together are the
  outcome: \<open>Rejected Empty\<close> is \<open>NO_EMPTY_TEXT\<close> and \<open>false\<close>, \<open>Rejected DuplicateSource\<close>
  is \<open>NO_DUPS_TEXT\<close> and \<open>false\<close>, \<open>Rejected Cycle\<close> is \<open>NO_CYCLES_TEXT\<close> and \<open>false\<close>,
  \<open>AcceptedWithAdvisory n\<close> is \<open>MISMATCHED_SUBDOMAINS_TEXT\<close> and \<open>true\<close> with \<open>n\<close> the
  subdomain difference that triggered it, \<open>Accepted\<close> is \<open>true\<close> without notification.
\<close>

datatype reason = Empty | DuplicateSource | Cycle

datatype outcome = Accepted | AcceptedWithAdvisory nat | Rejected reason

definition isValidInput :: "string \<Rightarrow> string \<Rightarrow> rule list \<Rightarrow> outcome" where
  "isValidInput source destination rules =
     (if \<not> hasChars source \<or> \<not> hasChars destination then Rejected Empty
      else if list_ex (\<lambda>obj. hasValue obj ''src'' (Str source)) rules
        then Rejected DuplicateSource
      else if list_ex (\<lambda>obj. hasValue obj ''dest'' (Str source)) rules
        then Rejected Cycle
      else if getSubdomainDifference source destination > 0
        then AcceptedWithAdvisory (getSubdomainDifference source destination)
      else Accepted)"

text \<open>The boolean that \<open>isValidInput\<close> returns.\<close>

fun returnsTrue :: "outcome \<Rightarrow> bool" where
  "returnsTrue (Rejected r) = False"
| "returnsTrue _ = True"

subsection \<open>storeRule\<close>

text \<open>\<open>String.prototype.trim\<close>.\<close>

definition trim :: "string \<Rightarrow> string" where
  "trim s = rev (dropWhile isWhiteSpace (rev (dropWhile isWhiteSpace s)))"

text \<open>
  The stored list \<open>redirectionRules\<close> is passed in and the list written back is returned.
\<close>

definition storeRule :: "string \<Rightarrow> string \<Rightarrow> bool \<Rightarrow> rule list \<Rightarrow> rule list" where
  "storeRule source destination isRegex rules =
     (if returnsTrue (isValidInput source destination rules)
      then rules @ [[''src'' \<mapsto> Str (trim source), ''dest'' \<mapsto> Str (trim destination),
                     ''regex'' \<mapsto> Bool isRegex]]
      else rules)"

subsection \<open>Exceptions\<close>

text \<open>
  With string arguments the only operation of \<open>getDomain\<close>, \<open>getSubdomainDifference\<close>
  and \<open>isValidInput\<close> that can raise is the property read \<open>m[1]\<close> on the result \<open>m\<close> of
  \<open>exec\<close>: a \<open>TypeError\<close> when \<open>m\<close> is \<open>null\<close>. The definitions below are the three
  functions again with that exception as a value; an exception raised in a callee
  leaves the caller.

  The result of \<open>exec\<close>: \<open>null\<close>, or the match array of the matched text and group 1.
\<close>

definition exec_protocol_array :: "string \<Rightarrow> (string \<times> string) option" where
  "exec_protocol_array url = map_option (\<lambda>g. (''//'' @ g, g)) (exec_protocol url)"

definition exec_path_array :: "string \<Rightarrow> (string \<times> string) option" where
  "exec_path_array s = map_option (\<lambda>g. (g @ ''/'', g)) (exec_path s)"

text \<open>\<open>m[1]\<close>.\<close>

definition group1 :: "(string \<times> string) option \<Rightarrow> error + string" where
  "group1 m = (case m of None \<Rightarrow> Inl TypeError | Some (whole, g) \<Rightarrow> Inr g)"

definition getDomain_exn :: "string \<Rightarrow> error + string" where
  "getDomain_exn url =
     (case (if exec_protocol_array url \<noteq> None then group1 (exec_protocol_array url)
            else Inr url) of
        Inl e \<Rightarrow> Inl e
      | Inr noProtocol \<Rightarrow>
          (if exec_path_array noProtocol \<noteq> None then group1 (exec_path_array noProtocol)
           else Inr url))"

definition getSubdomainDifference_exn :: "string \<Rightarrow> string \<Rightarrow> error + nat" where
  "getSubdomainDifference_exn source destination =
     (case getDomain_exn source of
        Inl e \<Rightarrow> Inl e
      | Inr src \<Rightarrow>
          (case getDomain_exn destination of
             Inl e \<Rightarrow> Inl e
           | Inr dst \<Rightarrow>
               (let longer = (if length dst \<ge> length src then dst else src);
                    shorter = (if length dst \<ge> length src then src else dst);
                    postReplace = replace_first longer shorter
                in if length postReplace = length longer then Inr 0
                   else Inr (count_periods postReplace 0 0))))"

definition isValidInput_exn :: "string \<Rightarrow> string \<Rightarrow> rule list \<Rightarrow> error + outcome" where
  "isValidInput_exn source destination rules =
     (if \<not> hasChars source \<or> \<not> hasChars destination then Inr (Rejected Empty)
      else if list_ex (\<lambda>obj. hasValue obj ''src'' (Str source)) rules
        then Inr (Rejected DuplicateSource)
      else if list_ex (\<lambda>obj. hasValue obj ''dest'' (Str source)) rules
        then Inr (Rejected Cycle)
      else (case getSubdomainDifference_exn source destination of
              Inl e \<Rightarrow> Inl e
            | Inr difference \<Rightarrow>
                if difference > 0 then Inr (AcceptedWithAdvisory difference)
                else Inr Accepted))"

section \<open>Reference definitions in the words of the specification\<close>

text \<open>
  \<open>stripProtocol\<close>: if the input contains \<open>"//"\<close>, everything after the first
  occurrence of \<open>"//"\<close>; otherwise the input unchanged.
\<close>

fun afterFirstDoubleSlash :: "string \<Rightarrow> string option" where
  "afterFirstDoubleSlash (a # b # rest) =
     (if a = CHR ''/'' \<and> b = CHR ''/'' then Some rest else afterFirstDoubleSlash (b # rest))"
| "afterFirstDoubleSlash _ = None"

definition stripProtocol_spec :: "string \<Rightarrow> string" where
  "stripProtocol_spec input =
     (case afterFirstDoubleSlash input of Some r \<Rightarrow> r | None \<Rightarrow> input)"

text \<open>
  \<open>stripPath\<close>: if the input contains a \<open>"/"\<close>, everything before the first \<open>"/"\<close>;
  otherwise the input unchanged.
\<close>

definition stripPath_spec :: "string \<Rightarrow> string" where
  "stripPath_spec input =
     (if CHR ''/'' \<in> set input then takeWhile (\<lambda>c. c \<noteq> CHR ''/'') input else input)"

text \<open>
  The subdomain delta: \<open>longer\<close> is the normalized string of greater or equal length,
  \<open>shorter\<close> the other; the first literal occurrence of \<open>shorter\<close> is removed from
  \<open>longer\<close>; an unchanged length gives 0, otherwise the delta is the number of periods
  left. \<open>occursAt s pat i\<close>: \<open>pat\<close> stands in \<open>s\<close> at index \<open>i\<close>.
\<close>

definition occursAt :: "string \<Rightarrow> string \<Rightarrow> nat \<Rightarrow> bool" where
  "occursAt s pat i = (take (length pat) (drop i s) = pat)"

definition removeFirstOccurrence :: "string \<Rightarrow> string \<Rightarrow> string" where
  "removeFirstOccurrence s pat =
     (case find (occursAt s pat) [0..<Suc (length s)] of
        None \<Rightarrow> s
      | Some i \<Rightarrow> take i s @ drop (i + length pat) s)"

definition subdomainDelta_spec :: "string \<Rightarrow> string \<Rightarrow> nat" where
  "subdomainDelta_spec source destination =
     (let a = getDomain source;
          b = getDomain destination;
          longer = (if length a \<ge> length b then a else b);
          shorter = (if length a \<ge> length b then b else a);
          residual = removeFirstOccurrence longer shorter
      in if length residual = length longer then 0
         else length (filter (\<lambda>c. c = CHR ''.'') residual))"

section \<open>Rule lists of the test suite\<close>

text \<open>The list of the test "a source that's at the front of the rules array".\<close>

definition rulesWithSource :: "rule list" where
  "rulesWithSource =
     [[''src'' \<mapsto> Str ''nickschorr.com'', ''dest'' \<mapsto> Str ''nickschorr.com/test/''],
      [''src'' \<mapsto> Str ''nickschorr.com/path/'', ''dest'' \<mapsto> Str ''nickschorr.com/path/test/''],
      [''src'' \<mapsto> Str ''test.nickschorr.com/path/'',
       ''dest'' \<mapsto> Str ''test.nickschorr.com/path/test/'']]"

text \<open>The list of the test "a source that matches a destination at the front of the
  rules array".\<close>

definition rulesWithDestination :: "rule list" where
  "rulesWithDestination =
     [[''src'' \<mapsto> Str ''nickschorr.com/test/'', ''dest'' \<mapsto> Str ''nickschorr.com''],
      [''src'' \<mapsto> Str ''nickschorr.com/path/'', ''dest'' \<mapsto> Str ''nickschorr.com/path/test/''],
      [''src'' \<mapsto> Str ''test.nickschorr.com/path/'',
       ''dest'' \<mapsto> Str ''test.nickschorr.com/path/test/'']]"

text \<open>A rule as \<open>storeRule\<close> writes it.\<close>

definition storedRule :: rule where
  "storedRule = [''src'' \<mapsto> Str ''a.com'', ''dest'' \<mapsto> Str ''b.com'', ''regex'' \<mapsto> Bool False]"

section \<open>Lemmas\<close>

subsection \<open>isValidInput\<close>

lemma hasChars_iff: "hasChars s \<longleftrightarrow> (\<exists>c\<in>set s. \<not> isWhiteSpace c)"
  by (simp add: hasChars_def list_ex_iff)

lemma hasValue_iff: "hasValue obj key v \<longleftrightarrow> obj key = Some v"
  by (auto simp: hasValue_def)

lemma isValidInput_unfold:
  "isValidInput source destination rules =
     (if \<not> hasChars source \<or> \<not> hasChars destination then Rejected Empty
      else if \<exists>obj\<in>set rules. obj ''src'' = Some (Str source) then Rejected DuplicateSource
      else if \<exists>obj\<in>set rules. obj ''dest'' = Some (Str source) then Rejected Cycle
      else if 0 < getSubdomainDifference source destination
        then AcceptedWithAdvisory (getSubdomainDifference source destination)
      else Accepted)"
  by (simp add: isValidInput_def list_ex_iff hasValue_iff)

subsection \<open>trim\<close>

lemma trim_fixed:
  assumes "trim s = s" and "s \<noteq> []"
  shows "\<not> isWhiteSpace (hd s) \<and> \<not> isWhiteSpace (last s)"
proof -
  let ?d = "dropWhile isWhiteSpace s"
  have "length s = length (dropWhile isWhiteSpace (rev ?d))"
    using assms(1) by (metis length_rev trim_def)
  moreover have "length (dropWhile isWhiteSpace (rev ?d)) \<le> length (rev ?d)"
    by (rule length_dropWhile_le)
  moreover have "length ?d \<le> length s"
    by (rule length_dropWhile_le)
  ultimately have len: "length ?d = length s" by simp
  have "takeWhile isWhiteSpace s @ ?d = s" by simp
  then have "takeWhile isWhiteSpace s = []"
    using len by (metis add_cancel_right_left length_0_conv length_append)
  then have d: "?d = s" by (metis append_Nil takeWhile_dropWhile_id)
  then have "dropWhile isWhiteSpace (rev s) = rev s"
    using assms(1) by (metis rev_rev_ident trim_def)
  then have "\<not> isWhiteSpace (hd (rev s))"
    using assms(2) by (simp add: dropWhile_eq_self_iff)
  moreover have "\<not> isWhiteSpace (hd s)"
    using d assms(2) by (simp add: dropWhile_eq_self_iff)
  ultimately show ?thesis using assms(2) by (simp add: hd_rev)
qed

lemma trim_padded:
  assumes "trim s = s" and "s \<noteq> []"
    and "\<forall>c\<in>set pre. isWhiteSpace c" and "\<forall>c\<in>set post. isWhiteSpace c"
  shows "trim (pre @ s @ post) = s"
proof -
  from trim_fixed [OF assms(1,2)]
  have h: "\<not> isWhiteSpace (hd s)" and l: "\<not> isWhiteSpace (last s)" by simp_all
  have "dropWhile isWhiteSpace (pre @ s @ post) = dropWhile isWhiteSpace (s @ post)"
    using assms(3) by simp
  also have "\<dots> = s @ post"
    using h assms(2) by (cases s) simp_all
  finally have 1: "dropWhile isWhiteSpace (pre @ s @ post) = s @ post" .
  have "dropWhile isWhiteSpace (rev post @ rev s) = dropWhile isWhiteSpace (rev s)"
    by (rule dropWhile_append2) (use assms(4) in auto)
  then have "dropWhile isWhiteSpace (rev (s @ post)) = dropWhile isWhiteSpace (rev s)"
    by simp
  also have "\<dots> = rev s"
    using l assms(2) by (simp add: dropWhile_eq_self_iff hd_rev)
  finally show ?thesis
    by (simp add: trim_def 1)
qed

section \<open>The order of the checks\<close>

text \<open>
  C1. For every candidate source, destination and list of existing rules, \<open>isValidInput\<close>
  applies its checks in strict order and the first failing check decides: \<open>Rejected Empty\<close>
  if source or destination holds no non-whitespace character; otherwise
  \<open>Rejected DuplicateSource\<close> if the \<open>src\<close> of some existing rule is the candidate source;
  otherwise \<open>Rejected Cycle\<close> if the \<open>dest\<close> of some existing rule is the candidate
  source; otherwise the advisory with the subdomain delta if that delta is positive;
  otherwise \<open>Accepted\<close>. Empty source and destination with no rules are
  \<open>Rejected Empty\<close>, and so is every candidate whose source is whitespace only.
\<close>

theorem isValidInput_check_order:
  "isValidInput source destination rules =
     (if (\<forall>c\<in>set source. isWhiteSpace c) \<or> (\<forall>c\<in>set destination. isWhiteSpace c)
        then Rejected Empty
      else if \<exists>obj\<in>set rules. obj ''src'' = Some (Str source) then Rejected DuplicateSource
      else if \<exists>obj\<in>set rules. obj ''dest'' = Some (Str source) then Rejected Cycle
      else if 0 < getSubdomainDifference source destination
        then AcceptedWithAdvisory (getSubdomainDifference source destination)
      else Accepted)
   \<and> isValidInput [] [] [] = Rejected Empty
   \<and> ((\<forall>c\<in>set source. isWhiteSpace c) \<longrightarrow>
        isValidInput source destination rules = Rejected Empty)"
  by (simp add: isValidInput_unfold hasChars_iff)

theorem isValidInput_check_order_witness:
  "isValidInput ''  '' ''nickschorr.com'' rulesWithSource = Rejected Empty
   \<and> isValidInput ''nickschorr.com'' ''a.com'' rulesWithSource = Rejected DuplicateSource
   \<and> isValidInput ''nickschorr.com/test/'' ''a.com'' rulesWithSource = Rejected Cycle"
  using isValidInput_check_order [of "''  ''" "''nickschorr.com''" rulesWithSource]
    isValidInput_check_order [of "''nickschorr.com''" "''a.com''" rulesWithSource]
    isValidInput_check_order [of "''nickschorr.com/test/''" "''a.com''" rulesWithSource]
  by (simp add: rulesWithSource_def isWhiteSpace_def)

section \<open>Duplicate sources\<close>

text \<open>
  C4, as amended. For every candidate source and destination that each hold a
  non-whitespace character and every list of existing rules: if the list holds a rule
  whose \<open>src\<close> is the candidate source (raw string equality), \<open>isValidInput\<close> gives
  \<open>Rejected DuplicateSource\<close>, whatever the destination otherwise is.
\<close>

theorem duplicate_source_rejected:
  assumes "hasChars source" and "hasChars destination"
    and "\<exists>obj\<in>set rules. obj ''src'' = Some (Str source)"
  shows "isValidInput source destination rules = Rejected DuplicateSource"
  using assms by (simp add: isValidInput_unfold)

theorem duplicate_source_rejected_witness:
  "hasChars ''nickschorr.com'' \<and> hasChars ''a.com''
   \<and> isValidInput ''nickschorr.com'' ''a.com'' rulesWithSource = Rejected DuplicateSource"
proof -
  have s: "hasChars ''nickschorr.com''" and d: "hasChars ''a.com''"
    by (simp_all add: hasChars_def isWhiteSpace_def)
  have r: "\<exists>obj\<in>set rulesWithSource. obj ''src'' = Some (Str ''nickschorr.com'')"
    by (simp add: rulesWithSource_def)
  show ?thesis using s d duplicate_source_rejected [OF s d r] by simp
qed

text \<open>
  C4 as stated fails at an input of the test suite: with the empty destination the
  emptiness check comes first, although the first rule has the candidate source.
\<close>

theorem duplicate_source_empty_destination:
  "hd rulesWithSource ''src'' = Some (Str ''nickschorr.com'')
   \<and> isValidInput ''nickschorr.com'' '''' rulesWithSource = Rejected Empty
   \<and> isValidInput ''nickschorr.com'' '''' rulesWithSource \<noteq> Rejected DuplicateSource"
  by (simp add: rulesWithSource_def isValidInput_def hasChars_def)

section \<open>Cycles\<close>

text \<open>
  C5, as amended. For every candidate source and destination and every list of existing
  rules, \<open>isValidInput\<close> gives \<open>Rejected Cycle\<close> exactly when source and destination each
  hold a non-whitespace character, no existing rule has the candidate source as its
  \<open>src\<close>, and some existing rule has it as its \<open>dest\<close> (raw string equality). The check
  reads the stored \<open>dest\<close> properties only: a cycle of two hops; no chain is walked.
\<close>

theorem cycle_rejected_iff:
  "isValidInput source destination rules = Rejected Cycle \<longleftrightarrow>
     hasChars source \<and> hasChars destination
     \<and> (\<forall>obj\<in>set rules. obj ''src'' \<noteq> Some (Str source))
     \<and> (\<exists>obj\<in>set rules. obj ''dest'' = Some (Str source))"
  by (auto simp: isValidInput_unfold)

theorem cycle_rejected_iff_witness:
  "isValidInput ''nickschorr.com'' ''a.com'' rulesWithDestination = Rejected Cycle"
  using cycle_rejected_iff [of "''nickschorr.com''" "''a.com''" rulesWithDestination]
  by (simp add: rulesWithDestination_def hasChars_def isWhiteSpace_def)

text \<open>
  C5 as stated fails at an input of the test suite: the first rule has the candidate
  source as its \<open>dest\<close>, none of the three rules has it as its \<open>src\<close>, and with the
  empty destination the outcome is \<open>Rejected Empty\<close>.
\<close>

theorem cycle_empty_destination:
  "(rulesWithDestination ! 0) ''dest'' = Some (Str ''nickschorr.com'')
   \<and> (rulesWithDestination ! 0) ''src'' \<noteq> Some (Str ''nickschorr.com'')
   \<and> (rulesWithDestination ! 1) ''src'' \<noteq> Some (Str ''nickschorr.com'')
   \<and> (rulesWithDestination ! 2) ''src'' \<noteq> Some (Str ''nickschorr.com'')
   \<and> length rulesWithDestination = 3
   \<and> isValidInput ''nickschorr.com'' '''' rulesWithDestination = Rejected Empty
   \<and> isValidInput ''nickschorr.com'' '''' rulesWithDestination \<noteq> Rejected Cycle"
  by (simp add: rulesWithDestination_def isValidInput_def hasChars_def)

section \<open>The regex property of a rule\<close>

text \<open>
  C10. The outcome never depends on the \<open>regex\<close> property of a rule: two lists of rules
  that agree, rule by rule, on every property other than \<open>regex\<close> (whose value may
  differ, and which may be absent) give the same outcome for every candidate.
\<close>

theorem isValidInput_ignores_regex:
  assumes "list_all2 (\<lambda>obj1 obj2. \<forall>key. key \<noteq> ''regex'' \<longrightarrow> obj1 key = obj2 key) rules1 rules2"
  shows "isValidInput source destination rules1 = isValidInput source destination rules2"
proof -
  have eq: "(\<exists>obj\<in>set rules1. obj key = Some v) \<longleftrightarrow> (\<exists>obj\<in>set rules2. obj key = Some v)"
    if "key \<noteq> ''regex''" for key v
    using assms that
    by (induction rules1 rules2 rule: list_all2_induct) auto
  have "(\<exists>obj\<in>set rules1. obj ''src'' = Some (Str source))
          \<longleftrightarrow> (\<exists>obj\<in>set rules2. obj ''src'' = Some (Str source))"
    by (rule eq) simp
  moreover have "(\<exists>obj\<in>set rules1. obj ''dest'' = Some (Str source))
          \<longleftrightarrow> (\<exists>obj\<in>set rules2. obj ''dest'' = Some (Str source))"
    by (rule eq) simp
  ultimately show ?thesis
    by (simp add: isValidInput_unfold)
qed

theorem isValidInput_ignores_regex_witness:
  "isValidInput ''b.com'' ''c.com''
     [[''src'' \<mapsto> Str ''a.com'', ''dest'' \<mapsto> Str ''b.com'', ''regex'' \<mapsto> Bool False],
      [''src'' \<mapsto> Str ''x.com'', ''dest'' \<mapsto> Str ''y.com'']]
   = isValidInput ''b.com'' ''c.com''
     [[''src'' \<mapsto> Str ''a.com'', ''dest'' \<mapsto> Str ''b.com'', ''regex'' \<mapsto> Bool True],
      [''src'' \<mapsto> Str ''x.com'', ''dest'' \<mapsto> Str ''y.com'', ''regex'' \<mapsto> Bool True]]"
proof -
  have "list_all2 (\<lambda>obj1 obj2. \<forall>key. key \<noteq> ''regex'' \<longrightarrow> obj1 key = obj2 key)
     [[''src'' \<mapsto> Str ''a.com'', ''dest'' \<mapsto> Str ''b.com'', ''regex'' \<mapsto> Bool False],
      [''src'' \<mapsto> Str ''x.com'', ''dest'' \<mapsto> Str ''y.com'']]
     [[''src'' \<mapsto> Str ''a.com'', ''dest'' \<mapsto> Str ''b.com'', ''regex'' \<mapsto> Bool True],
      [''src'' \<mapsto> Str ''x.com'', ''dest'' \<mapsto> Str ''y.com'', ''regex'' \<mapsto> Bool True]]"
    by simp
  then show ?thesis by (rule isValidInput_ignores_regex)
qed

section \<open>The index of a delete button\<close>

lemma match_digits_None:
  "\<forall>c\<in>set s. \<not> isDigit c \<Longrightarrow> match_digits s = None"
  by (induction s) auto

lemma match_digits_run:
  assumes "\<forall>c\<in>set pre. \<not> isDigit c" and "run \<noteq> []" and "\<forall>c\<in>set run. isDigit c"
    and "post = [] \<or> \<not> isDigit (hd post)"
  shows "match_digits (pre @ run @ post) = Some run"
  using assms(1)
proof (induction pre)
  case Nil
  from assms(2) obtain c cs where run: "run = c # cs" by (cases run) auto
  have "takeWhile isDigit post = []"
    using assms(4) by (simp add: takeWhile_eq_Nil_iff)
  then have "takeWhile isDigit (run @ post) = run"
    using assms(3) by simp
  then show ?case using assms(3) run by simp
next
  case (Cons a pre)
  then show ?case by simp
qed

lemma match_digits_Some:
  "match_digits s = Some m \<Longrightarrow> m \<noteq> [] \<and> (\<forall>c\<in>set m. isDigit c)"
proof (induction s)
  case Nil
  then show ?case by simp
next
  case (Cons c cs)
  then show ?case
    by (auto split: if_splits dest: set_takeWhileD)
qed

text \<open>The left fold of \<open>parseInt\<close> computes the positional value of the digits.\<close>

lemma foldl_decimal:
  "foldl (\<lambda>n c. 10 * n + digitValue c) a ds =
     a * 10 ^ length ds + (\<Sum>i<length ds. digitValue (ds ! i) * 10 ^ (length ds - 1 - i))"
proof (induction ds arbitrary: a)
  case Nil
  then show ?case by simp
next
  case (Cons d ds)
  have "foldl (\<lambda>n c. 10 * n + digitValue c) a (d # ds) =
          foldl (\<lambda>n c. 10 * n + digitValue c) (10 * a + digitValue d) ds"
    by simp
  also have "\<dots> = (10 * a + digitValue d) * 10 ^ length ds
          + (\<Sum>i<length ds. digitValue (ds ! i) * 10 ^ (length ds - 1 - i))"
    by (rule Cons.IH)
  also have "\<dots> = a * 10 ^ length (d # ds)
          + (\<Sum>i<length (d # ds). digitValue ((d # ds) ! i) * 10 ^ (length (d # ds) - 1 - i))"
    by (simp add: sum.lessThan_Suc_shift algebra_simps del: sum.lessThan_Suc)
  finally show ?case .
qed

lemma isDigit_plain:
  "isDigit c \<Longrightarrow> \<not> isWhiteSpace c \<and> c \<noteq> CHR ''-'' \<and> c \<noteq> CHR ''+''"
  by (auto simp: isDigit_def isWhiteSpace_def)

lemma parseInt_digits:
  assumes "run \<noteq> []" and "\<forall>c\<in>set run. isDigit c"
  shows "parseInt run = toDouble (foldl (\<lambda>n c. 10 * n + digitValue c) 0 run)"
proof -
  from assms obtain c cs where run: "run = c # cs" and c: "isDigit c"
    by (cases run) auto
  have t: "dropWhile isWhiteSpace run = run"
    using run c by (simp add: isDigit_plain)
  have negative: "(case run of [] \<Rightarrow> False | c # _ \<Rightarrow> c = CHR ''-'') = False"
    using run c by (simp add: isDigit_plain)
  have u: "(case run of [] \<Rightarrow> [] | c # r \<Rightarrow> if c = CHR ''-'' \<or> c = CHR ''+'' then r else run) = run"
    using run c by (simp add: isDigit_plain)
  have ds: "takeWhile isDigit run = run"
    using assms(2) by simp
  show ?thesis
    unfolding parseInt_def Let_def t negative u ds
    using assms(1) by (simp only: if_False)
qed

lemma parseInt_run:
  assumes "run \<noteq> []" and "\<forall>c\<in>set run. isDigit c"
  shows "parseInt run =
           toDouble (\<Sum>i<length run. digitValue (run ! i) * 10 ^ (length run - 1 - i))"
  using parseInt_digits [OF assms] by (simp add: foldl_decimal del: foldl.simps)

text \<open>The binary digits of \<open>v\<close> are \<open>k + 1\<close> when \<open>v\<close> lies between \<open>2 ^ k\<close> and
  \<open>2 ^ (k + 1)\<close>.\<close>

lemma bitlen_eq: "2 ^ k \<le> v \<Longrightarrow> v < 2 ^ Suc k \<Longrightarrow> bitlen v = Suc k"
proof (induction k arbitrary: v)
  case 0
  then have "v = 1" by simp
  then show ?case by (simp add: bitlen.simps)
next
  case (Suc k)
  then have "2 ^ k \<le> v div 2" and "v div 2 < 2 ^ Suc k" by auto
  then have "bitlen (v div 2) = Suc k" by (rule Suc.IH)
  moreover have "v \<noteq> 0" using Suc.prems by auto
  ultimately show ?case by (subst bitlen.simps) simp
qed

text \<open>Up to \<open>2 ^ 53\<close> the Number is the integer itself.\<close>

lemma toDouble_exact:
  assumes "v \<le> 2 ^ 53"
  shows "toDouble v = Num (int v)"
proof (cases "v < 2 ^ 53")
  case True
  then show ?thesis by (simp add: toDouble_def)
next
  case False
  with assms have v: "v = 9007199254740992" by simp
  have "bitlen 9007199254740992 = Suc 53" by (rule bitlen_eq) simp_all
  then have "toDouble 9007199254740992 = Num 9007199254740992"
    by (simp add: toDouble_def Let_def)
  then show ?thesis by (simp add: v)
qed

lemma toDouble_overflow: "2 ^ 1024 - 2 ^ 970 \<le> v \<Longrightarrow> toDouble v = PosInfinity"
  by (simp add: toDouble_def)

lemma toDouble_cases: "toDouble v = PosInfinity \<or> (\<exists>n\<ge>0. toDouble v = Num n)"
  by (simp add: toDouble_def Let_def)

lemma getButtonIndex_digits:
  assumes "\<forall>c\<in>set pre. \<not> isDigit c" and "run \<noteq> []" and "\<forall>c\<in>set run. isDigit c"
    and "post = [] \<or> \<not> isDigit (hd post)"
  shows "getButtonIndex (pre @ run @ post) =
           Number (toDouble (foldl (\<lambda>n c. 10 * n + digitValue c) 0 run))"
  using assms
  by (simp add: getButtonIndex_def getButtonIndex_try_def match_digits_run parseInt_digits
      del: foldl.simps)

lemma getButtonIndex_run:
  assumes "\<forall>c\<in>set pre. \<not> isDigit c" and "run \<noteq> []" and "\<forall>c\<in>set run. isDigit c"
    and "post = [] \<or> \<not> isDigit (hd post)"
  shows "getButtonIndex (pre @ run @ post) =
           Number (toDouble (\<Sum>i<length run. digitValue (run ! i) * 10 ^ (length run - 1 - i)))"
  using assms
  by (simp add: getButtonIndex_def getButtonIndex_try_def match_digits_run parseInt_run)

lemma getButtonIndex_try_cases:
  "getButtonIndex_try buttonId = Inl TypeError
   \<or> getButtonIndex_try buttonId = Inr PosInfinity
   \<or> (\<exists>n\<ge>0. getButtonIndex_try buttonId = Inr (Num n))"
proof (cases "match_digits buttonId")
  case None
  then show ?thesis by (simp add: getButtonIndex_try_def)
next
  case (Some m)
  then have m: "m \<noteq> []" "\<forall>c\<in>set m. isDigit c"
    using match_digits_Some by blast+
  then show ?thesis
    using Some toDouble_cases [of "\<Sum>i<length m. digitValue (m ! i) * 10 ^ (length m - 1 - i)"]
    by (auto simp: getButtonIndex_try_def parseInt_run)
qed

text \<open>
  C6, as amended. For every string \<open>buttonId\<close>, \<open>getButtonIndex\<close> returns \<open>null\<close> when
  there is no digit in it; otherwise it takes the first run of digits found anywhere
  in it and, when the decimal value of that run is at most \<open>2 ^ 53\<close>, returns that
  value, a non-negative integer. \<open>deleteRuleButton-0\<close> gives 0, \<open>deleteRuleButton-999\<close>
  gives 999, \<open>deleteRuleButton-\<close> and the empty string give \<open>null\<close>. The first run is
  \<open>run\<close> in \<open>pre @ run @ post\<close>, where \<open>pre\<close> has no digit, \<open>run\<close> is a non-empty string of
  digits and \<open>post\<close> does not start with a digit.
\<close>

theorem getButtonIndex_first_digit_run:
  "((\<forall>c\<in>set buttonId. \<not> isDigit c) \<longrightarrow> getButtonIndex buttonId = Null)
   \<and> ((\<forall>c\<in>set pre. \<not> isDigit c) \<and> run \<noteq> [] \<and> (\<forall>c\<in>set run. isDigit c)
        \<and> (post = [] \<or> \<not> isDigit (hd post))
        \<and> (\<Sum>i<length run. digitValue (run ! i) * 10 ^ (length run - 1 - i)) \<le> 2 ^ 53 \<longrightarrow>
      getButtonIndex (pre @ run @ post) =
        Number (Num (int (\<Sum>i<length run. digitValue (run ! i) * 10 ^ (length run - 1 - i))))
      \<and> 0 \<le> int (\<Sum>i<length run. digitValue (run ! i) * 10 ^ (length run - 1 - i)))
   \<and> getButtonIndex ''deleteRuleButton-0'' = Number (Num 0)
   \<and> getButtonIndex ''deleteRuleButton-999'' = Number (Num 999)
   \<and> getButtonIndex ''deleteRuleButton-'' = Null
   \<and> getButtonIndex [] = Null"
proof (intro conjI impI)
  assume "\<forall>c\<in>set buttonId. \<not> isDigit c"
  then show "getButtonIndex buttonId = Null"
    by (simp add: getButtonIndex_def getButtonIndex_try_def match_digits_None)
next
  assume a: "(\<forall>c\<in>set pre. \<not> isDigit c) \<and> run \<noteq> [] \<and> (\<forall>c\<in>set run. isDigit c)
        \<and> (post = [] \<or> \<not> isDigit (hd post))
        \<and> (\<Sum>i<length run. digitValue (run ! i) * 10 ^ (length run - 1 - i)) \<le> 2 ^ 53"
  then have "getButtonIndex (pre @ run @ post) =
      Number (toDouble (\<Sum>i<length run. digitValue (run ! i) * 10 ^ (length run - 1 - i)))"
    by (intro getButtonIndex_run) simp_all
  moreover have "toDouble (\<Sum>i<length run. digitValue (run ! i) * 10 ^ (length run - 1 - i))
      = Num (int (\<Sum>i<length run. digitValue (run ! i) * 10 ^ (length run - 1 - i)))"
    using a by (intro toDouble_exact) simp
  ultimately show "getButtonIndex (pre @ run @ post) =
        Number (Num (int (\<Sum>i<length run. digitValue (run ! i) * 10 ^ (length run - 1 - i))))"
    by simp
  show "0 \<le> int (\<Sum>i<length run. digitValue (run ! i) * 10 ^ (length run - 1 - i))"
    by (rule of_nat_0_le_iff)
next
  have "getButtonIndex (''deleteRuleButton-'' @ ''0'' @ [])
          = Number (toDouble (foldl (\<lambda>n c. 10 * n + digitValue c) 0 ''0''))"
    by (rule getButtonIndex_digits) (simp_all add: isDigit_def)
  then show "getButtonIndex ''deleteRuleButton-0'' = Number (Num 0)"
    by (simp add: digitValue_def toDouble_exact)
  have "getButtonIndex (''deleteRuleButton-'' @ ''999'' @ [])
          = Number (toDouble (foldl (\<lambda>n c. 10 * n + digitValue c) 0 ''999''))"
    by (rule getButtonIndex_digits) (simp_all add: isDigit_def)
  then show "getButtonIndex ''deleteRuleButton-999'' = Number (Num 999)"
    by (simp add: digitValue_def toDouble_exact)
  show "getButtonIndex ''deleteRuleButton-'' = Null"
    by (simp add: getButtonIndex_def getButtonIndex_try_def isDigit_def)
  show "getButtonIndex [] = Null"
    by (simp add: getButtonIndex_def getButtonIndex_try_def)
qed

theorem getButtonIndex_first_digit_run_witness:
  "getButtonIndex ''row12of34'' = Number (Num 12) \<and> getButtonIndex ''none'' = Null"
proof -
  have "getButtonIndex (''row'' @ ''12'' @ ''of34'') = Number (Num 12)"
    using getButtonIndex_first_digit_run [of "''none''" "''row''" "''12''" "''of34''"]
    by (simp add: isDigit_def digitValue_def)
  moreover have "getButtonIndex ''none'' = Null"
    using getButtonIndex_first_digit_run [of "''none''" "''row''" "''12''" "''of34''"]
    by (simp add: isDigit_def)
  ultimately show ?thesis by simp
qed

text \<open>
  C6 as stated fails: the run \<open>9007199254740993\<close> is \<open>2 ^ 53 + 1\<close>, which is not a
  double, and the index returned is \<open>2 ^ 53\<close>.
\<close>

theorem getButtonIndex_rounds:
  "getButtonIndex ''deleteRuleButton-9007199254740993'' = Number (Num 9007199254740992)
   \<and> getButtonIndex ''deleteRuleButton-9007199254740993'' \<noteq> Number (Num 9007199254740993)"
proof -
  have "getButtonIndex (''deleteRuleButton-'' @ ''9007199254740993'' @ [])
          = Number (toDouble (foldl (\<lambda>n c. 10 * n + digitValue c) 0 ''9007199254740993''))"
    by (rule getButtonIndex_digits) (simp_all add: isDigit_def)
  moreover have "foldl (\<lambda>n c. 10 * n + digitValue c) 0 ''9007199254740993''
          = 9007199254740993"
    by (simp add: digitValue_def)
  moreover have "toDouble 9007199254740993 = Num 9007199254740992"
  proof -
    have "bitlen 9007199254740993 = Suc 53" by (rule bitlen_eq) simp_all
    then show ?thesis by (simp add: toDouble_def Let_def)
  qed
  ultimately show ?thesis by simp
qed

section \<open>The subdomain difference\<close>

lemma find_map_list: "find P (map f xs) = map_option f (find (P \<circ> f) xs)"
  by (induction xs) auto

lemma find_upt_Suc:
  "find P [0..<Suc (Suc n)] =
     (if P 0 then Some 0 else map_option Suc (find (P \<circ> Suc) [0..<Suc n]))"
proof -
  have "[0..<Suc (Suc n)] = 0 # map Suc [0..<Suc n]"
    by (simp only: map_Suc_upt) (simp add: upt_conv_Cons)
  then show ?thesis
    by (simp only: find.simps find_map_list)
qed

lemma prefix_iff_take: "prefix pat s \<longleftrightarrow> take (length pat) s = pat"
  by (metis append_take_drop_id prefix_def append_eq_conv_conj)

lemma occursAt_Cons: "occursAt (c # cs) pat (Suc i) = occursAt cs pat i"
  by (simp add: occursAt_def)

text \<open>\<open>replace\<close> cuts out the occurrence at the least index.\<close>

lemma replace_first_eq_remove:
  "replace_first s pat = removeFirstOccurrence s pat"
proof (induction s)
  case Nil
  then show ?case
    by (auto simp: removeFirstOccurrence_def occursAt_def)
next
  case (Cons c cs)
  have comp: "occursAt (c # cs) pat \<circ> Suc = occursAt cs pat"
    by (rule ext) (simp add: occursAt_Cons)
  have zero: "occursAt (c # cs) pat 0 \<longleftrightarrow> prefix pat (c # cs)"
    by (simp add: occursAt_def prefix_iff_take)
  show ?case
  proof (cases "prefix pat (c # cs)")
    case True
    then show ?thesis
      using zero by (simp add: removeFirstOccurrence_def find_upt_Suc del: upt_Suc)
  next
    case False
    then have "replace_first (c # cs) pat = c # removeFirstOccurrence cs pat"
      using Cons.IH by simp
    also have "\<dots> = removeFirstOccurrence (c # cs) pat"
      using False zero
      by (simp add: removeFirstOccurrence_def find_upt_Suc comp del: upt_Suc
          split: option.splits)
    finally show ?thesis .
  qed
qed

text \<open>The loop counts the periods from index \<open>i\<close> on.\<close>

lemma count_periods_eq:
  "count_periods p i n = n + length (filter (\<lambda>c. c = CHR ''.'') (drop i p))"
proof (induction p i n rule: count_periods.induct)
  case (1 p i n)
  show ?case
  proof (cases "i < length p")
    case True
    then have d: "drop i p = p ! i # drop (Suc i) p"
      by (simp add: Cons_nth_drop_Suc)
    show ?thesis
      using True "1.IH" [OF True]
      by (subst count_periods.simps) (simp add: d)
  next
    case False
    then show ?thesis
      by (subst count_periods.simps) simp
  qed
qed

text \<open>A pattern that is at least as long as the string and differs from it does not
  occur in it.\<close>

lemma replace_first_no_room:
  "length s \<le> length pat \<Longrightarrow> pat \<noteq> s \<Longrightarrow> replace_first s pat = s"
proof (induction s)
  case Nil
  then show ?case by simp
next
  case (Cons c cs)
  have "\<not> prefix pat (c # cs)"
  proof
    assume "prefix pat (c # cs)"
    then have "take (length pat) (c # cs) = pat" by (simp add: prefix_iff_take)
    with Cons.prems show False by simp
  qed
  moreover have "replace_first cs pat = cs"
    using Cons.prems by (intro Cons.IH) auto
  ultimately show ?case by simp
qed

lemma getSubdomainDifference_spec:
  "getSubdomainDifference source destination = subdomainDelta_spec source destination"
proof -
  let ?a = "getDomain source" and ?b = "getDomain destination"
  consider "length ?a < length ?b" | "length ?b < length ?a" | "?a = ?b"
    | "length ?a = length ?b" "?a \<noteq> ?b"
    by fastforce
  then show ?thesis
  proof cases
    case 1
    then show ?thesis
      by (simp add: getSubdomainDifference_def subdomainDelta_spec_def Let_def
          replace_first_eq_remove [symmetric] count_periods_eq)
  next
    case 2
    then show ?thesis
      by (simp add: getSubdomainDifference_def subdomainDelta_spec_def Let_def
          replace_first_eq_remove [symmetric] count_periods_eq)
  next
    case 3
    then show ?thesis
      by (simp add: getSubdomainDifference_def subdomainDelta_spec_def Let_def
          replace_first_eq_remove [symmetric] count_periods_eq)
  next
    case 4
    then have "replace_first ?b ?a = ?b" and "replace_first ?a ?b = ?a"
      by (simp_all add: replace_first_no_room)
    then show ?thesis
      using 4
      by (simp add: getSubdomainDifference_def subdomainDelta_spec_def Let_def
          replace_first_eq_remove [symmetric])
  qed
qed

text \<open>
  C3. For every pair of strings, \<open>getSubdomainDifference\<close> equals the reference
  computation \<open>subdomainDelta_spec\<close>: both strings are normalized with \<open>getDomain\<close>,
  \<open>longer\<close> is the one of greater or equal length, the first literal occurrence of
  \<open>shorter\<close> is removed from \<open>longer\<close>, an unchanged length gives 0 and otherwise the
  delta is the number of periods in the result. (At equal lengths the reference takes
  the normalized source as \<open>longer\<close> and the code the normalized destination.)
  \<open>one.nickschorr.com\<close> against \<open>nickschorr.com\<close> reports 1 in both directions,
  \<open>one.x.com\<close> against \<open>two.x.com\<close> has delta 0, five subdomains against none report 5.
\<close>

theorem getSubdomainDifference_reference:
  "getSubdomainDifference source destination = subdomainDelta_spec source destination
   \<and> isValidInput ''one.nickschorr.com'' ''nickschorr.com'' [] = AcceptedWithAdvisory 1
   \<and> isValidInput ''nickschorr.com'' ''one.nickschorr.com'' [] = AcceptedWithAdvisory 1
   \<and> getSubdomainDifference ''one.x.com'' ''two.x.com'' = 0
   \<and> isValidInput ''one.x.com'' ''two.x.com'' [] = Accepted
   \<and> isValidInput ''one.two.three.four.five.nickschorr.com'' ''nickschorr.com'' []
       = AcceptedWithAdvisory 5"
proof (intro conjI)
  show "getSubdomainDifference source destination = subdomainDelta_spec source destination"
    by (rule getSubdomainDifference_spec)
  show "isValidInput ''one.nickschorr.com'' ''nickschorr.com'' [] = AcceptedWithAdvisory 1"
    by code_simp
  show "isValidInput ''nickschorr.com'' ''one.nickschorr.com'' [] = AcceptedWithAdvisory 1"
    by code_simp
  show "getSubdomainDifference ''one.x.com'' ''two.x.com'' = 0"
    by code_simp
  show "isValidInput ''one.x.com'' ''two.x.com'' [] = Accepted"
    by code_simp
  show "isValidInput ''one.two.three.four.five.nickschorr.com'' ''nickschorr.com'' []
       = AcceptedWithAdvisory 5"
    by code_simp
qed

theorem getSubdomainDifference_reference_witness:
  "getSubdomainDifference ''three.two.one.nickschorr.com'' ''two.one.nickschorr.com'' = 1"
proof -
  have "subdomainDelta_spec ''three.two.one.nickschorr.com'' ''two.one.nickschorr.com'' = 1"
    by code_simp
  then show ?thesis
    using getSubdomainDifference_reference
      [of "''three.two.one.nickschorr.com''" "''two.one.nickschorr.com''"]
    by simp
qed

text \<open>
  C9. \<open>getSubdomainDifference\<close> is symmetric for all inputs: for every pair of strings
  \<open>a\<close> and \<open>b\<close>, \<open>getSubdomainDifference a b = getSubdomainDifference b a\<close>.
\<close>

theorem getSubdomainDifference_symmetric:
  "getSubdomainDifference a b = getSubdomainDifference b a"
proof -
  consider "length (getDomain a) < length (getDomain b)"
    | "length (getDomain b) < length (getDomain a)"
    | "getDomain a = getDomain b"
    | "length (getDomain a) = length (getDomain b)" "getDomain a \<noteq> getDomain b"
    by fastforce
  then show ?thesis
  proof cases
    case 1
    then show ?thesis by (simp add: getSubdomainDifference_def Let_def)
  next
    case 2
    then show ?thesis by (simp add: getSubdomainDifference_def Let_def)
  next
    case 3
    then show ?thesis by (simp add: getSubdomainDifference_def Let_def)
  next
    case 4
    then have "replace_first (getDomain b) (getDomain a) = getDomain b"
      and "replace_first (getDomain a) (getDomain b) = getDomain a"
      by (simp_all add: replace_first_no_room)
    then show ?thesis using 4 by (simp add: getSubdomainDifference_def Let_def)
  qed
qed

theorem getSubdomainDifference_symmetric_witness:
  "getSubdomainDifference ''nickschorr.com'' ''one.two.nickschorr.com'' = 2"
proof -
  have "getSubdomainDifference ''one.two.nickschorr.com'' ''nickschorr.com'' = 2"
    by code_simp
  then show ?thesis
    using getSubdomainDifference_symmetric
      [of "''nickschorr.com''" "''one.two.nickschorr.com''"]
    by simp
qed

section \<open>The domain of a URL\<close>

lemma exec_protocol_no_slash: "CHR ''/'' \<notin> set s \<Longrightarrow> exec_protocol s = None"
  by (induction s rule: exec_protocol.induct) auto

lemma match_path_at_no_slash: "CHR ''/'' \<notin> set s \<Longrightarrow> match_path_at s = None"
  by (induction s rule: match_path_at.induct) auto

lemma exec_path_no_slash: "CHR ''/'' \<notin> set s \<Longrightarrow> exec_path s = None"
  by (induction s) (auto simp: match_path_at_no_slash)

lemma afterFirstDoubleSlash_no_slash:
  "CHR ''/'' \<notin> set s \<Longrightarrow> afterFirstDoubleSlash s = None"
  by (induction s rule: afterFirstDoubleSlash.induct) auto

lemma afterFirstDoubleSlash_set:
  "afterFirstDoubleSlash s = Some r \<Longrightarrow> set r \<subseteq> set s"
  by (induction s rule: afterFirstDoubleSlash.induct) (auto split: if_splits)

text \<open>Without line terminators the first regular expression finds the text after the
  first two slashes, unless nothing follows them.\<close>

lemma exec_protocol_spec:
  "\<forall>c\<in>set s. \<not> isLineTerminator c \<Longrightarrow>
     exec_protocol s =
       (case afterFirstDoubleSlash s of
          None \<Rightarrow> None
        | Some r \<Rightarrow> if r = [] then None else Some r)"
  by (induction s rule: exec_protocol.induct) simp_all

text \<open>Without line terminators the second regular expression finds the text before the
  first slash, if the string has a slash and does not start with one.\<close>

lemma match_path_at_spec:
  "\<forall>c\<in>set s. \<not> isLineTerminator c \<Longrightarrow> s \<noteq> [] \<Longrightarrow> hd s \<noteq> CHR ''/'' \<Longrightarrow>
   CHR ''/'' \<in> set s \<Longrightarrow> match_path_at s = Some (takeWhile (\<lambda>c. c \<noteq> CHR ''/'') s)"
  by (induction s rule: match_path_at.induct) auto

lemma exec_path_spec:
  assumes "\<forall>c\<in>set s. \<not> isLineTerminator c" and "hd s \<noteq> CHR ''/''" and "CHR ''/'' \<in> set s"
  shows "exec_path s = Some (stripPath_spec s)"
proof -
  from assms(3) obtain c cs where s: "s = c # cs" by (cases s) auto
  have "match_path_at s = Some (takeWhile (\<lambda>c. c \<noteq> CHR ''/'') s)"
    using assms s by (intro match_path_at_spec) auto
  then show ?thesis
    using assms(3) by (simp add: s stripPath_spec_def)
qed

text \<open>
  C2, as amended. \<open>getDomain input\<close> equals \<open>stripPath (stripProtocol input)\<close> for every
  input without a slash (so \<open>getDomain\<close> of the empty string is the empty string), and
  for every input without a line terminator in which the text that \<open>stripProtocol\<close>
  leaves contains a slash and does not start with one. \<open>stripProtocol\<close> returns
  everything after the first \<open>"//"\<close> if there is one and the input otherwise;
  \<open>stripPath\<close> returns everything before the first \<open>"/"\<close> if there is one and the input
  otherwise.
\<close>

theorem getDomain_refines_spec:
  "(CHR ''/'' \<notin> set url \<longrightarrow>
      getDomain url = stripPath_spec (stripProtocol_spec url))
   \<and> ((\<forall>c\<in>set url. \<not> isLineTerminator c)
        \<and> CHR ''/'' \<in> set (stripProtocol_spec url)
        \<and> hd (stripProtocol_spec url) \<noteq> CHR ''/'' \<longrightarrow>
      getDomain url = stripPath_spec (stripProtocol_spec url))
   \<and> getDomain [] = []"
proof (intro conjI impI)
  assume "CHR ''/'' \<notin> set url"
  then show "getDomain url = stripPath_spec (stripProtocol_spec url)"
    by (simp add: getDomain_def exec_protocol_no_slash exec_path_no_slash
        stripProtocol_spec_def stripPath_spec_def afterFirstDoubleSlash_no_slash)
next
  assume a: "(\<forall>c\<in>set url. \<not> isLineTerminator c)
        \<and> CHR ''/'' \<in> set (stripProtocol_spec url)
        \<and> hd (stripProtocol_spec url) \<noteq> CHR ''/''"
  let ?r = "stripProtocol_spec url"
  have nolt: "\<forall>c\<in>set ?r. \<not> isLineTerminator c"
    using a afterFirstDoubleSlash_set [of url]
    by (auto simp: stripProtocol_spec_def split: option.splits)
  have "?r \<noteq> []" using a by auto
  then have "(case exec_protocol url of Some g \<Rightarrow> g | None \<Rightarrow> url) = ?r"
    using a by (auto simp: exec_protocol_spec stripProtocol_spec_def split: option.splits)
  moreover have "exec_path ?r = Some (stripPath_spec ?r)"
    using a nolt by (intro exec_path_spec) auto
  ultimately show "getDomain url = stripPath_spec ?r"
    by (simp add: getDomain_def)
next
  show "getDomain [] = []" by (simp add: getDomain_def)
qed

theorem getDomain_refines_spec_witness:
  "getDomain ''nickschorr.com'' = ''nickschorr.com''
   \<and> getDomain ''http://nickschorr.com/path/'' = ''nickschorr.com''
   \<and> stripPath_spec (stripProtocol_spec ''http://nickschorr.com/path/'') = ''nickschorr.com''"
proof -
  have 1: "getDomain ''nickschorr.com'' = ''nickschorr.com''"
    using getDomain_refines_spec [of "''nickschorr.com''"]
    by (simp add: stripProtocol_spec_def stripPath_spec_def)
  have s: "stripProtocol_spec ''http://nickschorr.com/path/'' = ''nickschorr.com/path/''"
    by (simp add: stripProtocol_spec_def)
  have p: "stripPath_spec ''nickschorr.com/path/'' = ''nickschorr.com''"
    by (simp add: stripPath_spec_def)
  have 2: "getDomain ''http://nickschorr.com/path/''
             = stripPath_spec (stripProtocol_spec ''http://nickschorr.com/path/'')"
    using getDomain_refines_spec [of "''http://nickschorr.com/path/''"]
    by (simp add: s isLineTerminator_def)
  show ?thesis using 1 2 by (simp add: s p)
qed

text \<open>
  C2 as stated fails: a URL with a protocol and no path is returned whole; a string
  that starts with a slash keeps it; a line feed stops the match.
\<close>

theorem getDomain_differs_from_spec:
  "getDomain ''http://a.com'' = ''http://a.com''
   \<and> stripPath_spec (stripProtocol_spec ''http://a.com'') = ''a.com''
   \<and> getDomain ''/a/b'' = ''/a''
   \<and> stripPath_spec (stripProtocol_spec ''/a/b'') = []
   \<and> getDomain [CHR ''a'', CHR 0x0A, CHR ''/'', CHR ''b'']
       = [CHR ''a'', CHR 0x0A, CHR ''/'', CHR ''b'']
   \<and> stripPath_spec (stripProtocol_spec [CHR ''a'', CHR 0x0A, CHR ''/'', CHR ''b''])
       = [CHR ''a'', CHR 0x0A]"
  by (simp add: getDomain_def stripPath_spec_def stripProtocol_spec_def isLineTerminator_def)

section \<open>Padded duplicates\<close>

text \<open>
  C7. The duplicate and cycle checks compare the raw candidate with the raw stored
  strings. For every list of rules that holds a rule with trimmed source \<open>s\<close>, and every
  candidate source that is \<open>s\<close> with white space added in front or behind and is not
  raw-equal to a stored source or destination, \<open>isValidInput\<close> gives neither
  \<open>Rejected DuplicateSource\<close> nor \<open>Rejected Cycle\<close>; and since \<open>storeRule\<close> trims what it
  stores, a second rule with source \<open>s\<close> is appended when \<open>s\<close> and the destination hold
  a non-whitespace character.
\<close>

theorem padded_duplicate_not_detected:
  assumes "obj \<in> set rules" and "obj ''src'' = Some (Str s)" and "trim s = s"
    and "\<forall>c\<in>set pre. isWhiteSpace c" and "\<forall>c\<in>set post. isWhiteSpace c"
    and "\<forall>r\<in>set rules. r ''src'' \<noteq> Some (Str (pre @ s @ post))
                        \<and> r ''dest'' \<noteq> Some (Str (pre @ s @ post))"
  shows "isValidInput (pre @ s @ post) destination rules \<noteq> Rejected DuplicateSource
       \<and> isValidInput (pre @ s @ post) destination rules \<noteq> Rejected Cycle
       \<and> (hasChars s \<and> hasChars destination \<longrightarrow>
            storeRule (pre @ s @ post) destination isRegex rules =
              rules @ [[''src'' \<mapsto> Str s, ''dest'' \<mapsto> Str (trim destination),
                        ''regex'' \<mapsto> Bool isRegex]])"
proof (intro conjI impI)
  show "isValidInput (pre @ s @ post) destination rules \<noteq> Rejected DuplicateSource"
    using assms(6) by (simp add: isValidInput_unfold)
  show "isValidInput (pre @ s @ post) destination rules \<noteq> Rejected Cycle"
    using assms(6) by (simp add: isValidInput_unfold)
next
  assume a: "hasChars s \<and> hasChars destination"
  then have "s \<noteq> []" by (auto simp: hasChars_iff)
  then have t: "trim (pre @ s @ post) = s"
    using assms(3,4,5) by (intro trim_padded)
  have "hasChars (pre @ s @ post)" using a by (auto simp: hasChars_iff)
  then have "returnsTrue (isValidInput (pre @ s @ post) destination rules)"
    using a assms(6) by (simp add: isValidInput_unfold)
  then show "storeRule (pre @ s @ post) destination isRegex rules =
              rules @ [[''src'' \<mapsto> Str s, ''dest'' \<mapsto> Str (trim destination),
                        ''regex'' \<mapsto> Bool isRegex]]"
    by (simp add: storeRule_def t)
qed

theorem padded_duplicate_not_detected_witness:
  "isValidInput '' a.com'' ''c.com'' [storedRule] = Accepted
   \<and> storeRule '' a.com'' ''c.com'' False [storedRule] =
       [storedRule,
        [''src'' \<mapsto> Str ''a.com'', ''dest'' \<mapsto> Str ''c.com'', ''regex'' \<mapsto> Bool False]]"
proof -
  have 1: "storedRule \<in> set [storedRule]" by simp
  have 2: "storedRule ''src'' = Some (Str ''a.com'')" by (simp add: storedRule_def)
  have 3: "trim ''a.com'' = ''a.com''" by (simp add: trim_def isWhiteSpace_def)
  have 4: "\<forall>c\<in>set '' ''. isWhiteSpace c" by (simp add: isWhiteSpace_def)
  have 5: "\<forall>c\<in>set ''''. isWhiteSpace c" by simp
  have 6: "\<forall>r\<in>set [storedRule]. r ''src'' \<noteq> Some (Str ('' '' @ ''a.com'' @ ''''))
                        \<and> r ''dest'' \<noteq> Some (Str ('' '' @ ''a.com'' @ ''''))"
    by (simp add: storedRule_def)
  have h: "hasChars ''a.com'' \<and> hasChars ''c.com''"
    by (simp add: hasChars_def isWhiteSpace_def)
  have t: "trim ''c.com'' = ''c.com''" by (simp add: trim_def isWhiteSpace_def)
  have a: "isValidInput '' a.com'' ''c.com'' [storedRule] = Accepted" by code_simp
  from padded_duplicate_not_detected [OF 1 2 3 4 5 6, of "''c.com''" False] h t a
  show ?thesis by simp
qed

section \<open>Totality\<close>

lemma getDomain_exn_eq: "getDomain_exn url = Inr (getDomain url)"
proof -
  have g: "group1 (Some (w, g)) = Inr g" for w g
    by (simp add: group1_def)
  show ?thesis
    by (cases "exec_protocol url";
        cases "exec_path (case exec_protocol url of Some g \<Rightarrow> g | None \<Rightarrow> url)")
       (simp_all add: getDomain_exn_def getDomain_def exec_protocol_array_def
          exec_path_array_def g)
qed

lemma getSubdomainDifference_exn_eq:
  "getSubdomainDifference_exn source destination
     = Inr (getSubdomainDifference source destination)"
  by (simp add: getSubdomainDifference_exn_def getSubdomainDifference_def getDomain_exn_eq
      Let_def)

lemma isValidInput_exn_eq:
  "isValidInput_exn source destination rules = Inr (isValidInput source destination rules)"
  by (simp add: isValidInput_exn_def isValidInput_def getSubdomainDifference_exn_eq)

text \<open>
  C8, as amended. No operation raises, and each returns a defined result, for all
  string arguments. \<open>getDomain\<close>, \<open>getSubdomainDifference\<close> and \<open>isValidInput\<close> never
  raise the \<open>TypeError\<close> of reading \<open>m[1]\<close> from \<open>null\<close>, and return their values (their
  loops end). In \<open>getButtonIndex\<close> the only error the body of the \<open>try\<close> raises is the
  \<open>TypeError\<close> of indexing \<open>null\<close>, which the \<open>catch\<close> turns into \<open>null\<close>: the call
  returns \<open>null\<close>, a non-negative integer, or \<open>Infinity\<close> (for a digit run beyond the
  range of a double), never \<open>undefined\<close> or \<open>NaN\<close>.
\<close>

theorem engine_total:
  "(getButtonIndex buttonId = Null \<or> getButtonIndex buttonId = Number PosInfinity
      \<or> (\<exists>n\<ge>0. getButtonIndex buttonId = Number (Num n)))
   \<and> (getButtonIndex_try buttonId = Inl TypeError
        \<or> getButtonIndex_try buttonId = Inr PosInfinity
        \<or> (\<exists>n\<ge>0. getButtonIndex_try buttonId = Inr (Num n)))
   \<and> getDomain_exn url = Inr (getDomain url)
   \<and> getSubdomainDifference_exn source destination
        = Inr (getSubdomainDifference source destination)
   \<and> isValidInput_exn source destination rules
        = Inr (isValidInput source destination rules)"
proof (intro conjI)
  show t: "getButtonIndex_try buttonId = Inl TypeError
        \<or> getButtonIndex_try buttonId = Inr PosInfinity
        \<or> (\<exists>n\<ge>0. getButtonIndex_try buttonId = Inr (Num n))"
    by (rule getButtonIndex_try_cases)
  then show "getButtonIndex buttonId = Null \<or> getButtonIndex buttonId = Number PosInfinity
      \<or> (\<exists>n\<ge>0. getButtonIndex buttonId = Number (Num n))"
    by (auto simp: getButtonIndex_def)
  show "getDomain_exn url = Inr (getDomain url)"
    by (rule getDomain_exn_eq)
  show "getSubdomainDifference_exn source destination
        = Inr (getSubdomainDifference source destination)"
    by (rule getSubdomainDifference_exn_eq)
  show "isValidInput_exn source destination rules
        = Inr (isValidInput source destination rules)"
    by (rule isValidInput_exn_eq)
qed

theorem engine_total_witness:
  "getButtonIndex ''deleteRuleButton-'' \<noteq> Undefined
   \<and> getButtonIndex ''deleteRuleButton-12'' \<noteq> Number NaN
   \<and> getButtonIndex_try ''deleteRuleButton-'' \<noteq> Inl OtherError
   \<and> getDomain_exn ''http://nickschorr.com/'' = Inr ''nickschorr.com''
   \<and> getSubdomainDifference_exn ''one.nickschorr.com'' ''nickschorr.com'' = Inr 1
   \<and> isValidInput_exn ''one.nickschorr.com'' ''nickschorr.com'' [] = Inr (AcceptedWithAdvisory 1)"
proof -
  have d: "getDomain ''http://nickschorr.com/'' = ''nickschorr.com''" by code_simp
  have s: "getSubdomainDifference ''one.nickschorr.com'' ''nickschorr.com'' = 1" by code_simp
  have v: "isValidInput ''one.nickschorr.com'' ''nickschorr.com'' [] = AcceptedWithAdvisory 1"
    by code_simp
  show ?thesis
    using engine_total [of "''deleteRuleButton-''" "''http://nickschorr.com/''"
        "''one.nickschorr.com''" "''nickschorr.com''" "[]"]
      engine_total [of "''deleteRuleButton-12''" "''http://nickschorr.com/''"
        "''one.nickschorr.com''" "''nickschorr.com''" "[]"]
    by (auto simp: d s v)
qed

text \<open>
  C8 as stated fails: for a run of 400 digits the index returned is \<open>Infinity\<close>, which
  is neither an integer nor \<open>null\<close>.
\<close>

theorem getButtonIndex_infinite:
  "getButtonIndex (''deleteRuleButton-'' @ replicate 400 (CHR ''9'')) = Number PosInfinity"
proof -
  let ?f = "\<lambda>n c. 10 * n + digitValue c"
  have "getButtonIndex (''deleteRuleButton-'' @ replicate 400 (CHR ''9'') @ [])
          = Number (toDouble (foldl ?f 0 (replicate 400 (CHR ''9''))))"
    by (rule getButtonIndex_digits) (simp_all add: isDigit_def)
  moreover have "replicate 400 (CHR ''9'') = CHR ''9'' # replicate 399 (CHR ''9'')"
    by (simp add: replicate_Suc [symmetric])
  then have "foldl ?f 0 (replicate 400 (CHR ''9'')) = foldl ?f 9 (replicate 399 (CHR ''9''))"
    by (simp add: digitValue_def)
  then have "9 * 10 ^ 399 \<le> foldl ?f 0 (replicate 400 (CHR ''9''))"
    by (simp add: foldl_decimal del: foldl.simps)
  then have "2 ^ 1024 - 2 ^ 970 \<le> foldl ?f 0 (replicate 400 (CHR ''9''))"
    by (rule order_trans [rotated]) simp
  then have "toDouble (foldl ?f 0 (replicate 400 (CHR ''9''))) = PosInfinity"
    by (rule toDouble_overflow)
  ultimately show ?thesis by simp
qed

end
